theory Spec2Isabelle
  imports Main "HOL-Library.Sublist"
begin

section \<open>Python values used by \<open>action_main.py\<close>\<close>

text \<open>
  A Python \<open>str\<close> is modelled as a \<open>string\<close>, one \<open>char\<close> per character of the
  Python string. A raised \<open>Exception\<close> is a value carrying its message (\<open>str(e)\<close>);
  a call that may raise returns \<open>py_exception + 'a\<close>, with \<open>Inl\<close> for the raise.
  A Python value that is either \<open>None\<close> or a \<open>str\<close> is a \<open>string option\<close>.
\<close>

datatype py_exception = PyException (str_of: string)

text \<open>Python truthiness of a value that is \<open>None\<close> or a \<open>str\<close>: \<open>not v\<close>.\<close>

fun py_not :: "string option \<Rightarrow> bool" where
  "py_not None = True"
| "py_not (Some s) = (s = [])"

subsection \<open>String operations\<close>

text \<open>\<open>sub in s\<close>\<close>

fun contains :: "string \<Rightarrow> string \<Rightarrow> bool" where
  "contains sub [] = (sub = [])"
| "contains sub (c # cs) = (prefix sub (c # cs) \<or> contains sub cs)"

text \<open>\<open>s.lower()\<close>, on the characters below code point 256.\<close>

definition char_lower :: "char \<Rightarrow> char" where
  "char_lower c =
     (let n = (of_char c :: nat)
      in if (65 \<le> n \<and> n \<le> 90) \<or> (192 \<le> n \<and> n \<le> 222 \<and> n \<noteq> 215)
         then char_of (n + 32) else c)"

definition lower :: "string \<Rightarrow> string" where
  "lower s = map char_lower s"

text \<open>
  \<open>s.strip()\<close>: the white space of \<open>str.isspace\<close> below code point 256 is removed
  from both ends.
\<close>

definition is_space :: "char \<Rightarrow> bool" where
  "is_space c =
     (let n = (of_char c :: nat)
      in (9 \<le> n \<and> n \<le> 13) \<or> (28 \<le> n \<and> n \<le> 32) \<or> n = 133 \<or> n = 160)"

definition str_strip :: "string \<Rightarrow> string" where
  "str_strip s = rev (dropWhile is_space (rev (dropWhile is_space s)))"

text \<open>
  \<open>s.split(sep)\<close> and \<open>s.replace(old, new)\<close> for a non-empty \<open>sep\<close> and \<open>old\<close>
  (every call site passes a literal): the occurrences are found from left to right and
  do not overlap.
\<close>

fun str_split :: "string \<Rightarrow> string \<Rightarrow> string list" where
  "str_split sep [] = [[]]"
| "str_split sep (c # cs) =
     (if prefix sep (c # cs) then [] # str_split sep (drop (length sep - 1) cs)
      else (case str_split sep cs of p # ps \<Rightarrow> (c # p) # ps | [] \<Rightarrow> [[c]]))"

fun str_replace :: "string \<Rightarrow> string \<Rightarrow> string \<Rightarrow> string" where
  "str_replace old new [] = []"
| "str_replace old new (c # cs) =
     (if prefix old (c # cs) then new @ str_replace old new (drop (length old - 1) cs)
      else c # str_replace old new cs)"

text \<open>
  \<open>re.sub(r'\<open>o\<close>.*?\<open>c\<close>', '', s)\<close> for an opening character \<open>o\<close> and a closing
  character \<open>c\<close>: from each \<open>o\<close>, scanning from the left, the shortest span that ends
  at a \<open>c\<close> and holds no newline in between is deleted; an \<open>o\<close> with no such span
  stays. \<open>span_end c s\<close> is the text after that closing \<open>c\<close>, if there is one.
\<close>

fun span_end :: "char \<Rightarrow> string \<Rightarrow> string option" where
  "span_end cl [] = None"
| "span_end cl (c # cs) =
     (if c = cl then Some cs else if c = CHR 0x0A then None else span_end cl cs)"

lemma span_end_length: "span_end cl cs = Some rest \<Longrightarrow> length rest < length cs"
  by (induction cs) (auto split: if_splits)

function re_sub_span :: "char \<Rightarrow> char \<Rightarrow> string \<Rightarrow> string" where
  "re_sub_span opn cl [] = []"
| "re_sub_span opn cl (c # cs) =
     (if c = opn
      then (case span_end cl cs of
              Some rest \<Rightarrow> re_sub_span opn cl rest
            | None \<Rightarrow> c # re_sub_span opn cl cs)
      else c # re_sub_span opn cl cs)"
  by pat_completeness auto
termination
  by (relation "measure (\<lambda>(opn, cl, s). length s)") (auto dest: span_end_length)

text \<open>\<open>s.startswith(p)\<close> is \<open>prefix p s\<close> and \<open>s.endswith(p)\<close> is \<open>suffix p s\<close>.\<close>

text \<open>\<open>sep.join(parts)\<close>\<close>

fun join :: "string \<Rightarrow> string list \<Rightarrow> string" where
  "join sep [] = []"
| "join sep [x] = x"
| "join sep (x # y # ys) = x @ sep @ join sep (y # ys)"

text \<open>
  \<open>s.splitlines()\<close>: the line boundaries below code point 256 are \<open>\n\<close>, \<open>\r\<close>,
  \<open>\r\n\<close>, \<open>\v\<close>, \<open>\f\<close>, \<open>\x1c\<close>, \<open>\x1d\<close>, \<open>\x1e\<close> and \<open>\x85\<close>; a last line
  without a boundary is kept, an empty last line is not. \<open>cur\<close> is the current line,
  reversed.
\<close>

definition is_linebreak :: "char \<Rightarrow> bool" where
  "is_linebreak c =
     (let n = (of_char c :: nat)
      in (10 \<le> n \<and> n \<le> 13) \<or> (28 \<le> n \<and> n \<le> 30) \<or> n = 133)"

fun splitlines_from :: "string \<Rightarrow> string \<Rightarrow> string list" where
  "splitlines_from cur [] = (if cur = [] then [] else [rev cur])"
| "splitlines_from cur [c] =
     (if is_linebreak c then [rev cur] else [rev (c # cur)])"
| "splitlines_from cur (c # d # cs) =
     (if c = CHR 0x0D \<and> d = CHR 0x0A then rev cur # splitlines_from [] cs
      else if is_linebreak c then rev cur # splitlines_from [] (d # cs)
      else splitlines_from (c # cur) (d # cs))"

definition splitlines :: "string \<Rightarrow> string list" where
  "splitlines s = splitlines_from [] s"

subsection \<open>JSON values and files\<close>

text \<open>
  A value as \<open>json.load\<close> returns it. Numbers are integers; an object is a \<open>dict\<close>,
  its keys distinct. A file on disk is absent, or cannot be read, or does not hold JSON
  (\<open>json.load\<close> raises), or parses to a value.
\<close>

datatype json =
    JNull
  | JBool bool
  | JNum int
  | JStr string
  | JArr "json list"
  | JObj "(string \<times> json) list"

datatype disk_file = NoFile | Unreadable | Malformed | Parsed json


subsection \<open>Sets\<close>

text \<open>
  A Python \<open>set\<close> is the list of its elements in the order the set iterates them, without
  duplicates. Python does not fix that order: where a new element lands, and how the
  others move, is \<open>place x s\<close>, a parameter of the model. \<open>place_ok\<close> says that \<open>place\<close>
  adds the element and keeps the others.
\<close>

definition pyset_add :: "('a \<Rightarrow> 'a list \<Rightarrow> 'a list) \<Rightarrow> 'a \<Rightarrow> 'a list \<Rightarrow> 'a list" where
  "pyset_add place x s = (if x \<in> set s then s else place x s)"

definition place_ok :: "('a \<Rightarrow> 'a list \<Rightarrow> 'a list) \<Rightarrow> bool" where
  "place_ok place =
     (\<forall>x s. set (place x s) = insert x (set s) \<and> length (place x s) = Suc (length s))"





section \<open>Observable effects\<close>

text \<open>
  The external calls a run makes, in the order it makes them. \<open>EvGenerate m\<close> is one
  generation attempt with the backend model \<open>m\<close>; \<open>EvSleep n\<close> is \<open>time.sleep(n)\<close>
  and \<open>EvSleepRandom\<close> is \<open>time.sleep(random.uniform(2, 5))\<close>;
  \<open>EvTier1\<close>, \<open>EvTier2\<close>, \<open>EvTier3\<close> are the three transcript methods being entered
  for a video id; \<open>EvTTS\<close> is the speech synthesis call; \<open>EvDeliver msg audio\<close> is a
  call of \<open>send_to_telegram\<close>; \<open>EvPostMessage\<close> and \<open>EvPostVoice\<close> are its HTTP posts;
  \<open>EvDeleteAudio\<close> is the audio file being unlinked; \<open>EvLedgerWrite l\<close> is
  \<open>history.json\<close> being rewritten with the id list \<open>l\<close>. Logging is not recorded.
\<close>

datatype event =
    EvGenerate string
  | EvSleep nat
  | EvSleepRandom
  | EvTier1 string
  | EvTier2 string
  | EvTier3 string
  | EvTTS string
  | EvDeliver string "string option"
  | EvPostMessage string bool
  | EvPostVoice
  | EvDeleteAudio
  | EvLedgerWrite "json list"

text \<open>The models a trace attempted, in order.\<close>

fun attempted :: "event list \<Rightarrow> string list" where
  "attempted [] = []"
| "attempted (EvGenerate m # es) = m # attempted es"
| "attempted (e # es) = attempted es"

section \<open>\<open>generate_with_fallback\<close>\<close>

text \<open>
  The string literals written in the source of \<open>models_to_try\<close>, one per literal.
\<close>

definition authored_literals :: "string list" where
  "authored_literals =
     [''gemini-2.5-flash'',
      ''gemini-2.0-flash-exp'',
      ''gemini-1.5-pro'',
      ''gemini-1.5-flash'',
      ''gemini-2.5-flash-lite'',
      ''gemini-flash-lite-latest'',
      ''gemini-1.5-flash-8b'',
      ''gemini-2.5-flash-preview-09-2025'',
      ''gemini-2.5-flash-lite-preview-09-2025'',
      ''gemma-3-27b-it'',
      ''gemma-3-9b-it'',
      ''gemma-3-4b-it'',
      ''gemma-3-1b-it'']"

text \<open>
  The list as Python builds it: the first two literals are adjacent with no comma
  between them, which Python concatenates into one string.
\<close>

definition models_to_try :: "string list" where
  "models_to_try =
     [''gemini-2.5-flash'' @ ''gemini-2.0-flash-exp'',
      ''gemini-1.5-pro'',
      ''gemini-1.5-flash'',
      ''gemini-2.5-flash-lite'',
      ''gemini-flash-lite-latest'',
      ''gemini-1.5-flash-8b'',
      ''gemini-2.5-flash-preview-09-2025'',
      ''gemini-2.5-flash-lite-preview-09-2025'',
      ''gemma-3-27b-it'',
      ''gemma-3-9b-it'',
      ''gemma-3-4b-it'',
      ''gemma-3-1b-it'']"

text \<open>
  The \<open>except\<close> branch of the loop: the message is lowered and classified; two of the
  four classes sleep; every class continues with the next model.
\<close>

definition on_model_error :: "py_exception \<Rightarrow> event list" where
  "on_model_error e =
     (let error_msg = lower (str_of e)
      in if contains ''429'' error_msg \<or> contains ''quota'' error_msg then [EvSleep 1]
         else if contains ''404'' error_msg \<or> contains ''not found'' error_msg then []
         else if contains ''503'' error_msg \<or> contains ''overloaded'' error_msg then [EvSleep 2]
         else [])"

text \<open>
  The \<open>for model_name in models_to_try\<close> loop, for any candidate list. \<open>gen m p\<close> is
  the backend: \<open>GenerativeModel(m).generate_content(p).text\<close>, either the text or the
  exception raised. The result is the returned value (\<open>None\<close> after the loop) and the
  trace of external calls.
\<close>

fun try_models ::
  "(string \<Rightarrow> 'p \<Rightarrow> py_exception + string) \<Rightarrow> 'p \<Rightarrow> string list \<Rightarrow> string option \<times> event list"
where
  "try_models gen prompt_parts [] = (None, [])"
| "try_models gen prompt_parts (model_name # rest) =
     (case gen model_name prompt_parts of
        Inr text \<Rightarrow> (Some text, [EvGenerate model_name])
      | Inl e \<Rightarrow>
          (let (r, tr) = try_models gen prompt_parts rest
           in (r, EvGenerate model_name # on_model_error e @ tr)))"

definition generate_with_fallback ::
  "(string \<Rightarrow> 'p \<Rightarrow> py_exception + string) \<Rightarrow> 'p \<Rightarrow> string option \<times> event list"
where
  "generate_with_fallback gen prompt_parts = try_models gen prompt_parts models_to_try"

section \<open>The feed list and the ledger\<close>









text \<open>
  \<open>save_history\<close>: \<open>list(history)\<close> is the set in its iteration order; past 500 elements
  the last 500 of that list are kept (\<open>history_list[-500:]\<close>). \<open>write l\<close> is \<open>HISTORY_FILE.write_text\<close> for the
  list \<open>l\<close>: \<open>None\<close> when it succeeds, and the state it leaves the file in when it raises
  (the \<open>except\<close> only logs). The result is the file afterwards and the trace.
\<close>

definition keep_last_500 :: "json list \<Rightarrow> json list" where
  "keep_last_500 history_list =
     (if length history_list > 500
      then drop (length history_list - 500) history_list
      else history_list)"

definition save_history :: "(json list \<Rightarrow> disk_file option) \<Rightarrow> json list \<Rightarrow> disk_file \<times> event list" where
  "save_history write history =
     (let history_list = keep_last_500 history
      in (case write history_list of
            None \<Rightarrow> Parsed (JObj [(''videos'', JArr history_list)])
          | Some left \<Rightarrow> left,
          [EvLedgerWrite history_list]))"

text \<open>
  The two statements that record a delivered video, \<open>history.add(video["id"])\<close> and
  \<open>save_history(history)\<close>: the new set, the file and the trace.
\<close>

definition record_delivery ::
  "(json \<Rightarrow> json list \<Rightarrow> json list) \<Rightarrow> (json list \<Rightarrow> disk_file option) \<Rightarrow> string \<Rightarrow> json list
     \<Rightarrow> json list \<times> disk_file \<times> event list"
where
  "record_delivery place write video_id history =
     (let history' = pyset_add place (JStr video_id) history;
          (f, tr) = save_history write history'
      in (history', f, tr))"

text \<open>
  Ids recorded one after the other, each followed by its save, from a given set: the
  set and the file at the end (\<open>f\<close> when no id was recorded).
\<close>

fun record_all ::
  "(json \<Rightarrow> json list \<Rightarrow> json list) \<Rightarrow> (json list \<Rightarrow> disk_file option) \<Rightarrow> string list
     \<Rightarrow> json list \<times> disk_file \<Rightarrow> json list \<times> disk_file"
where
  "record_all place write [] hf = hf"
| "record_all place write (video_id # ids) (history, f) =
     (let (history', f', tr) = record_delivery place write video_id history
      in record_all place write ids (history', f'))"

text \<open>
  A run for the eviction order: a set that iterates its newest element first, writes that
  succeed, and 501 distinct ids recorded in the order \<open>sample_id 0\<close>, ..., \<open>sample_id 500\<close>.
\<close>

definition newest_first :: "json \<Rightarrow> json list \<Rightarrow> json list" where
  "newest_first x s = x # s"

definition write_succeeds :: "json list \<Rightarrow> disk_file option" where
  "write_succeeds l = None"

definition sample_id :: "nat \<Rightarrow> string" where
  "sample_id n = ''video'' @ replicate n (CHR ''x'')"

definition sample_ids :: "string list" where
  "sample_ids = map sample_id [0..<501]"

section \<open>\<open>analyze_video\<close>\<close>

text \<open>
  What is passed to the backend: the analysis prompt, a fixed template around the video
  title, the channel name and the first 50000 characters of the transcript; or the
  transcription instruction with an uploaded audio file.
\<close>

datatype prompt_parts =
    AnalysisPrompt string string string
  | TranscriptionPrompt string

definition TELEGRAM :: string where
  "TELEGRAM = ''---TELEGRAM---''"

definition PODCAST :: string where
  "PODCAST = ''---PODCAST---''"

text \<open>
  The link emoji of the short post (U+1F517) does not fit in one \<open>char\<close>; it is
  written as its four UTF-8 bytes.
\<close>

definition link_line :: "string \<Rightarrow> string" where
  "link_line video_url =
     [CHR 0x0A, CHR 0x0A] @ [CHR 0xF0, CHR 0x9F, CHR 0x94, CHR 0x97] @ '' '' @ video_url"

record content =
  telegram :: string
  podcast :: string

text \<open>The three \<open>re.sub\<close> calls of the final cleanup, in the source's order.\<close>

definition cleanup :: "string \<Rightarrow> string" where
  "cleanup podcast_txt =
     re_sub_span (CHR ''('') (CHR '')'')
       (re_sub_span (CHR ''['') (CHR '']'')
         (re_sub_span (CHR ''*'') (CHR ''*'') podcast_txt))"

text \<open>
  The part of \<open>analyze_video\<close> after the backend call: \<open>text\<close> is what
  \<open>generate_with_fallback\<close> returned. \<open>parts[1]\<close> on a list of one part raises
  \<open>IndexError\<close>, which the \<open>except\<close> turns into \<open>None\<close>.
\<close>

definition parse_response :: "string option \<Rightarrow> string \<Rightarrow> content option" where
  "parse_response text video_url =
     (if py_not text then None
      else (case text of
              None \<Rightarrow> None
            | Some t \<Rightarrow>
                if \<not> contains TELEGRAM t \<or> \<not> contains PODCAST t then None
                else (case str_split PODCAST t of
                        p0 # p1 # _ \<Rightarrow>
                          Some \<lparr>telegram = str_strip (str_replace TELEGRAM [] p0) @ link_line video_url,
                                podcast = cleanup (str_strip p1)\<rparr>
                      | _ \<Rightarrow> None)))"

definition analyze_video ::
  "(string \<Rightarrow> prompt_parts \<Rightarrow> py_exception + string)
     \<Rightarrow> string \<Rightarrow> string \<Rightarrow> string \<Rightarrow> string \<Rightarrow> content option \<times> event list"
where
  "analyze_video gen transcript channel_name video_title video_url =
     (let prompt = AnalysisPrompt video_title channel_name (take 50000 transcript);
          (text, tr) = generate_with_fallback gen prompt
      in (parse_response text video_url, tr))"

section \<open>The outside world\<close>

text \<open>
  Every call that leaves the program is a field of \<open>world\<close>, a function of the call's
  arguments that gives what the call returns or the exception it raises.
  \<^item> \<open>generate m p\<close>: \<open>GenerativeModel(m).generate_content(p).text\<close>.
  \<^item> \<open>cookies_exist\<close>: \<open>os.path.exists("cookies.txt")\<close>.
  \<^item> \<open>caption_api v c\<close>: \<open>YouTubeTranscriptApi.get_transcript\<close> for the video \<open>v\<close>, with
    the cookie file when \<open>c\<close>; each entry is its \<open>'text'\<close>, \<open>None\<close> for an entry without
    a usable one.
  \<^item> \<open>subtitle_download v\<close>, \<open>audio_download v\<close>: the two \<open>yt_dlp\<close> downloads (\<open>None\<close>: no
    exception). \<open>listdir v\<close>: \<open>os.listdir(".")\<close> after the subtitle download for \<open>v\<close>.
    \<open>read_file\<close>, \<open>remove_file\<close>, \<open>audio_exists\<close>: the file calls of methods 2 and 3.
  \<^item> \<open>upload_file f\<close>: the state name of the uploaded file; \<open>get_file f n\<close>: the state
    name at poll number \<open>n\<close> of that file.
  \<^item> \<open>tts script\<close>: the speech synthesis and the save of \<open>story.mp3\<close>.
  \<^item> \<open>post_message msg markdown\<close>: the HTTP status of \<open>sendMessage\<close>, or the exception
    \<open>requests.post\<close> raises; \<open>story_exists\<close>, \<open>open_story\<close>, \<open>post_voice\<close>,
    \<open>unlink_story\<close>: the calls around \<open>sendVoice\<close> while \<open>msg\<close> is delivered.
  \<^item> \<open>feed_entry u\<close>: the newest entry of the feed \<open>u\<close> as a video, \<open>None\<close> for a feed
    without entries, or the exception of the parse or of a missing attribute.
  \<^item> \<open>set_place\<close>: the iteration order of sets; \<open>write_history\<close>: the write of
    \<open>history.json\<close>.
\<close>

record video =
  v_id :: string
  v_title :: string
  v_url :: string
  v_channel :: string

record world =
  generate :: "string \<Rightarrow> prompt_parts \<Rightarrow> py_exception + string"
  cookies_exist :: bool
  caption_api :: "string \<Rightarrow> bool \<Rightarrow> py_exception + string option list"
  subtitle_download :: "string \<Rightarrow> py_exception option"
  listdir :: "string \<Rightarrow> py_exception + string list"
  read_file :: "string \<Rightarrow> py_exception + string"
  remove_file :: "string \<Rightarrow> py_exception option"
  audio_download :: "string \<Rightarrow> py_exception option"
  audio_exists :: "string \<Rightarrow> bool"
  upload_file :: "string \<Rightarrow> py_exception + string"
  get_file :: "string \<Rightarrow> nat \<Rightarrow> py_exception + string"
  tts :: "string \<Rightarrow> py_exception option"
  post_message :: "string \<Rightarrow> bool \<Rightarrow> py_exception + nat"
  story_exists :: "string \<Rightarrow> bool"
  open_story :: "string \<Rightarrow> py_exception option"
  post_voice :: "string \<Rightarrow> py_exception + nat"
  unlink_story :: "string \<Rightarrow> py_exception option"
  feed_entry :: "string \<Rightarrow> py_exception + video option"
  set_place :: "json \<Rightarrow> json list \<Rightarrow> json list"
  write_history :: "json list \<Rightarrow> disk_file option"

section \<open>\<open>get_transcript\<close>\<close>

subsection \<open>Method 1: the caption API\<close>

text \<open>\<open>[entry['text'] for entry in transcript_list]\<close>\<close>

fun entry_texts :: "string option list \<Rightarrow> py_exception + string list" where
  "entry_texts [] = Inr []"
| "entry_texts (None # es) = Inl (PyException ''KeyError'')"
| "entry_texts (Some t # es) =
     (case entry_texts es of Inl e \<Rightarrow> Inl e | Inr ts \<Rightarrow> Inr (t # ts))"

text \<open>The body of the first \<open>try\<close>: the text it returns, or the exception it raises.\<close>

definition method1 :: "world \<Rightarrow> string \<Rightarrow> py_exception + string" where
  "method1 w video_id =
     (case caption_api w video_id (cookies_exist w) of
        Inl e \<Rightarrow> Inl e
      | Inr transcript_list \<Rightarrow>
          (case entry_texts transcript_list of
             Inl e \<Rightarrow> Inl e
           | Inr ts \<Rightarrow> Inr (join '' '' ts)))"

subsection \<open>Method 2: captions through the downloader\<close>

definition clean_line :: "string \<Rightarrow> string" where
  "clean_line line =
     re_sub_span (CHR ''('') (CHR '')'')
       (re_sub_span (CHR ''['') (CHR '']'')
         (str_replace ''&nbsp;'' '' '' (str_replace ''</c>'' [] (str_replace ''<c>'' [] line))))"

definition vtt_text :: "string \<Rightarrow> string" where
  "vtt_text content =
     join '' ''
       (map clean_line
         (filter (\<lambda>line. \<not> contains ''-->'' line \<and> \<not> contains ''WEBVTT'' line
                          \<and> str_strip line \<noteq> [])
           (splitlines content)))"

text \<open>
  The body of the second \<open>try\<close> up to \<open>if found_text\<close>: the value of \<open>found_text\<close>, or
  the exception raised. The first listed file with the name of a caption file is read,
  removed and cleaned.
\<close>

definition method2 :: "world \<Rightarrow> string \<Rightarrow> py_exception + string option" where
  "method2 w video_id =
     (case subtitle_download w video_id of
        Some e \<Rightarrow> Inl e
      | None \<Rightarrow>
          (case listdir w video_id of
             Inl e \<Rightarrow> Inl e
           | Inr files \<Rightarrow>
               (case find (\<lambda>file. prefix (''transcript_'' @ video_id) file \<and> suffix ''.vtt'' file)
                       files of
                  None \<Rightarrow> Inr None
                | Some file \<Rightarrow>
                    (case read_file w file of
                       Inl e \<Rightarrow> Inl e
                     | Inr content \<Rightarrow>
                         (case remove_file w file of
                            Some e \<Rightarrow> Inl e
                          | None \<Rightarrow> Inr (Some (vtt_text content)))))))"

subsection \<open>Method 3: transcription of the audio\<close>

text \<open>
  \<open>while uploaded_file.state.name == "PROCESSING"\<close>: each round sleeps and polls. The
  loop ends when a poll raises or gives another state, and need not end; the result is
  the exception or the last state, and the number of rounds.
\<close>

partial_function (option) wait_processing ::
  "(nat \<Rightarrow> py_exception + string) \<Rightarrow> nat \<Rightarrow> string \<Rightarrow> ((py_exception + string) \<times> nat) option"
where
  "wait_processing poll n state =
     (if state = ''PROCESSING''
      then (case poll n of
              Inl e \<Rightarrow> Some (Inl e, Suc n)
            | Inr state' \<Rightarrow> wait_processing poll (Suc n) state')
      else Some (Inr state, n))"

declare wait_processing.simps [code]

text \<open>
  The third \<open>try\<close>: what it returns and its trace, \<open>None\<close> when the polling never ends.
  Every exception ends in \<open>return None\<close>. The cleanup after the transcription swallows
  its own exceptions and does not change the result.
\<close>

definition final_audio_file :: "string \<Rightarrow> string" where
  "final_audio_file video_id = (let filename = ''audio_'' @ video_id in filename @ ''.mp3'')"

definition method3 :: "world \<Rightarrow> string \<Rightarrow> (string option \<times> event list) option" where
  "method3 w video_id =
     (case audio_download w video_id of
        Some e \<Rightarrow> Some (None, [])
      | None \<Rightarrow>
          if audio_exists w (final_audio_file video_id)
          then (case upload_file w (final_audio_file video_id) of
                  Inl e \<Rightarrow> Some (None, [])
                | Inr state \<Rightarrow>
                    (case wait_processing (get_file w (final_audio_file video_id)) 0 state of
                       None \<Rightarrow> None
                     | Some (Inl e, n) \<Rightarrow> Some (None, replicate n (EvSleep 2))
                     | Some (Inr last_state, n) \<Rightarrow>
                         (let (transcript_text, tr) =
                                generate_with_fallback (generate w)
                                  (TranscriptionPrompt (final_audio_file video_id))
                          in Some (transcript_text, replicate n (EvSleep 2) @ tr))))
          else Some (None, []))"

subsection \<open>The cascade\<close>

text \<open>
  \<open>get_transcript\<close>: the returned value (\<open>None\<close> or a text) and the trace; \<open>None\<close> outside
  when method 3 polls for ever. An exception in method 2 leaves \<open>found_text\<close> unset and
  goes on to method 3, as a falsy \<open>found_text\<close> does.
\<close>

definition get_transcript :: "world \<Rightarrow> string \<Rightarrow> (string option \<times> event list) option" where
  "get_transcript w video_id =
     (case method1 w video_id of
        Inr text \<Rightarrow> Some (Some text, [EvTier1 video_id])
      | Inl e \<Rightarrow>
          (let found_text = (case method2 w video_id of Inl e \<Rightarrow> None | Inr t \<Rightarrow> t)
           in if \<not> py_not found_text
              then Some (found_text, [EvTier1 video_id, EvTier2 video_id, EvSleepRandom])
              else (case method3 w video_id of
                      None \<Rightarrow> None
                    | Some (r, tr) \<Rightarrow>
                        Some (r, [EvTier1 video_id, EvTier2 video_id, EvSleepRandom,
                                  EvTier3 video_id] @ tr))))"

section \<open>\<open>generate_audio\<close>, \<open>send_to_telegram\<close> and \<open>main\<close>\<close>

definition generate_audio :: "world \<Rightarrow> string \<Rightarrow> bool \<times> event list" where
  "generate_audio w script =
     (case tts w script of None \<Rightarrow> (True, [EvTTS script]) | Some e \<Rightarrow> (False, [EvTTS script]))"

text \<open>
  \<open>send_to_telegram\<close>: a status of 400 on the first post is answered by a second post
  without the parse mode; \<open>raise_for_status\<close> raises on a status from 400 to 599. The
  response of the voice post is not looked at. Every exception ends in \<open>return False\<close>.
\<close>

definition send_to_telegram :: "world \<Rightarrow> string \<Rightarrow> string option \<Rightarrow> bool \<times> event list" where
  "send_to_telegram w telegram_msg audio_file =
     (case post_message w telegram_msg True of
        Inl e \<Rightarrow> (False, [EvPostMessage telegram_msg True])
      | Inr first_status \<Rightarrow>
          (let (response, tr) =
                 (if first_status = 400
                  then (post_message w telegram_msg False,
                        [EvPostMessage telegram_msg True, EvPostMessage telegram_msg False])
                  else (Inr first_status, [EvPostMessage telegram_msg True]))
           in case response of
                Inl e \<Rightarrow> (False, tr)
              | Inr status_code \<Rightarrow>
                  if 400 \<le> status_code \<and> status_code < 600 then (False, tr)
                  else if \<not> py_not audio_file \<and> story_exists w telegram_msg
                  then (case open_story w telegram_msg of
                          Some e \<Rightarrow> (False, tr)
                        | None \<Rightarrow>
                            (case post_voice w telegram_msg of
                               Inl e \<Rightarrow> (False, tr @ [EvPostVoice])
                             | Inr voice_status \<Rightarrow>
                                 (case unlink_story w telegram_msg of
                                    Some e \<Rightarrow> (False, tr @ [EvPostVoice, EvDeleteAudio])
                                  | None \<Rightarrow> (True, tr @ [EvPostVoice, EvDeleteAudio]))))
                  else (True, tr)))"

text \<open>
  The body of \<open>for video in new_videos\<close>, on the ledger (the set and the file): the
  ledger afterwards and the trace of the item; \<open>None\<close> when the transcript never returns.
\<close>

definition process_video ::
  "world \<Rightarrow> video \<Rightarrow> json list \<times> disk_file \<Rightarrow> ((json list \<times> disk_file) \<times> event list) option"
where
  "process_video w v ledger =
     (case get_transcript w (v_id v) of
        None \<Rightarrow> None
      | Some (transcript, tr1) \<Rightarrow>
          (case transcript of
             None \<Rightarrow> Some (ledger, tr1)
           | Some t \<Rightarrow>
               if t = [] then Some (ledger, tr1)
               else (let (content, tr2) = analyze_video (generate w) t (v_channel v) (v_title v) (v_url v)
                     in case content of
                          None \<Rightarrow> Some (ledger, tr1 @ tr2)
                        | Some c \<Rightarrow>
                            (let (audio_ok, tr3) = generate_audio w (podcast c);
                                 audio_file = (if audio_ok then Some ''story.mp3'' else None);
                                 (success, tr4) = send_to_telegram w (telegram c) audio_file;
                                 tr = tr1 @ tr2 @ tr3 @ [EvDeliver (telegram c) audio_file] @ tr4
                             in if success
                                then (let (history', f', tr5) =
                                            record_delivery (set_place w) (write_history w) (v_id v)
                                              (fst ledger)
                                      in Some ((history', f'), tr @ tr5 @ [EvSleep 2]))
                                else Some (ledger, tr)))))"

fun process_videos ::
  "world \<Rightarrow> video list \<Rightarrow> json list \<times> disk_file \<Rightarrow> ((json list \<times> disk_file) \<times> event list) option"
where
  "process_videos w [] ledger = Some (ledger, [])"
| "process_videos w (v # vs) ledger =
     (case process_video w v ledger of
        None \<Rightarrow> None
      | Some (ledger', tr) \<Rightarrow>
          (case process_videos w vs ledger' of
             None \<Rightarrow> None
           | Some (ledger'', tr') \<Rightarrow> Some (ledger'', tr @ tr')))"



text \<open>The calls of \<open>send_to_telegram\<close> and the writes of the ledger file in a trace.\<close>

fun deliveries :: "event list \<Rightarrow> event list" where
  "deliveries [] = []"
| "deliveries (EvDeliver msg audio # es) = EvDeliver msg audio # deliveries es"
| "deliveries (e # es) = deliveries es"

fun ledger_writes :: "event list \<Rightarrow> event list" where
  "ledger_writes [] = []"
| "ledger_writes (EvLedgerWrite l # es) = EvLedgerWrite l # ledger_writes es"
| "ledger_writes (e # es) = ledger_writes es"

section \<open>Sample runs\<close>

text \<open>
  Worlds for concrete runs. In \<open>demo_world\<close> the caption API answers, the backend answers
  the analysis prompt with both markers and the transcription prompt with an empty text,
  the subtitle download raises, an uploaded file is ready at the third poll, every post
  of a message gets status 200 and the voice upload is rejected with status 413. The
  other worlds change one call each: the caption API raises, no audio file appears, the
  speech synthesis raises, the voice upload raises.
\<close>

definition demo_world :: world where
  "demo_world =
     \<lparr>generate = (\<lambda>m p. case p of
                     AnalysisPrompt t c tr \<Rightarrow> Inr ''---TELEGRAM---Hook---PODCAST---Whoa''
                   | TranscriptionPrompt f \<Rightarrow> Inr []),
      cookies_exist = False,
      caption_api = (\<lambda>v c. Inr [Some ''hello'', Some ''world'']),
      subtitle_download = (\<lambda>v. Some (PyException ''download error'')),
      listdir = (\<lambda>v. Inr []),
      read_file = (\<lambda>f. Inl (PyException ''no such file'')),
      remove_file = (\<lambda>f. None),
      audio_download = (\<lambda>v. None),
      audio_exists = (\<lambda>f. True),
      upload_file = (\<lambda>f. Inr ''PROCESSING''),
      get_file = (\<lambda>f n. Inr (if n < 2 then ''PROCESSING'' else ''ACTIVE'')),
      tts = (\<lambda>script. None),
      post_message = (\<lambda>msg markdown. Inr 200),
      story_exists = (\<lambda>msg. True),
      open_story = (\<lambda>msg. None),
      post_voice = (\<lambda>msg. Inr 413),
      unlink_story = (\<lambda>msg. None),
      feed_entry = (\<lambda>u. Inr None),
      set_place = newest_first,
      write_history = write_succeeds\<rparr>"

definition no_captions_world :: world where
  "no_captions_world =
     demo_world\<lparr>caption_api := (\<lambda>v c. Inl (PyException ''TranscriptsDisabled''))\<rparr>"

definition no_audio_world :: world where
  "no_audio_world = no_captions_world\<lparr>audio_exists := (\<lambda>f. False)\<rparr>"

definition no_voice_world :: world where
  "no_voice_world = demo_world\<lparr>tts := (\<lambda>script. Some (PyException ''tts error''))\<rparr>"

definition voice_raises_world :: world where
  "voice_raises_world =
     demo_world\<lparr>post_voice := (\<lambda>msg. Inl (PyException ''ConnectionError''))\<rparr>"

definition demo_video :: video where
  "demo_video = \<lparr>v_id = ''abc'', v_title = ''T'', v_url = ''u'', v_channel = ''C''\<rparr>"

section \<open>Properties of the model fallback selector\<close>

lemma attempted_append: "attempted (xs @ ys) = attempted xs @ attempted ys"
  by (induction xs rule: attempted.induct) simp_all

lemma attempted_on_model_error: "attempted (on_model_error e) = []"
  by (simp add: on_model_error_def Let_def)

lemma try_models_all_fail:
  "\<forall>m \<in> set ms. isl (gen m p) \<Longrightarrow>
     fst (try_models gen p ms) = None \<and> attempted (snd (try_models gen p ms)) = ms"
proof (induction ms)
  case Nil
  then show ?case by simp
next
  case (Cons m ms)
  then obtain e where e: "gen m p = Inl e"
    by (cases "gen m p") auto
  from Cons have ih: "fst (try_models gen p ms) = None"
      "attempted (snd (try_models gen p ms)) = ms"
    by simp_all
  show ?case
    using e ih
    by (simp add: split_beta attempted_append attempted_on_model_error)
qed

text \<open>
  C6. The master list as built has one element fewer than the literals written, and its
  first element is the first two literals run together.
\<close>

theorem models_to_try_concatenated:
  "hd models_to_try = ''gemini-2.5-flashgemini-2.0-flash-exp''
   \<and> length authored_literals = 13
   \<and> length models_to_try = 12
   \<and> models_to_try = (authored_literals ! 0 @ authored_literals ! 1) # drop 2 authored_literals"
  by (simp add: models_to_try_def authored_literals_def)

text \<open>
  C4. When every attempt of the master list raises, \<open>generate_with_fallback\<close> returns
  \<open>None\<close>, having tried every model of the list; the value is an ordinary return
  value, no exception leaves the function.
\<close>

theorem generate_with_fallback_all_fail:
  assumes "\<forall>m \<in> set models_to_try. \<exists>e. gen m p = Inl e"
  shows "fst (generate_with_fallback gen p) = None
         \<and> attempted (snd (generate_with_fallback gen p)) = models_to_try"
proof -
  from assms have "\<forall>m \<in> set models_to_try. isl (gen m p)"
    by auto
  then show ?thesis
    unfolding generate_with_fallback_def by (rule try_models_all_fail)
qed

theorem generate_with_fallback_all_fail_witness:
  "fst (generate_with_fallback (\<lambda>m p. Inl (PyException ''429 quota'')) ()) = None
   \<and> attempted (snd (generate_with_fallback (\<lambda>m p. Inl (PyException ''429 quota'')) ()))
       = models_to_try"
  using generate_with_fallback_all_fail
          [of "\<lambda>m p. Inl (PyException ''429 quota'')" "()"]
  by simp

text \<open>
  C5. For any candidate list, when the candidate at position \<open>n\<close> is the first whose
  attempt returns a text, the loop returns that text, and the attempts made are exactly
  the candidates up to and including position \<open>n\<close>, in list order: the earlier failures
  did not stop the loop and no later candidate was tried.
\<close>

theorem first_success_wins:
  assumes "n < length ms"
    and "\<forall>i < n. \<exists>e. gen (ms ! i) p = Inl e"
    and "gen (ms ! n) p = Inr t"
  shows "fst (try_models gen p ms) = Some t
         \<and> attempted (snd (try_models gen p ms)) = take (Suc n) ms"
  using assms
proof (induction ms arbitrary: n)
  case Nil
  then show ?case by simp
next
  case (Cons m ms)
  show ?case
  proof (cases n)
    case 0
    with Cons.prems show ?thesis by simp
  next
    case (Suc k)
    from Cons.prems Suc obtain e where e: "gen m p = Inl e"
      by fastforce
    have "k < length ms" using Cons.prems Suc by simp
    moreover have "\<forall>i < k. \<exists>e. gen (ms ! i) p = Inl e"
      using Cons.prems(2) Suc by fastforce
    moreover have "gen (ms ! k) p = Inr t"
      using Cons.prems(3) Suc by simp
    ultimately have ih: "fst (try_models gen p ms) = Some t"
        "attempted (snd (try_models gen p ms)) = take (Suc k) ms"
      using Cons.IH by blast+
    show ?thesis
      using e ih Suc
      by (simp add: split_beta attempted_append attempted_on_model_error)
  qed
qed

theorem first_success_wins_witness:
  "(1::nat) < length [''m1'', ''m2'', ''m3'']
   \<and> (\<lambda>m p. if m = ''m2'' then Inr ''answer'' else Inl (PyException ''404 not found''))
         ([''m1'', ''m2'', ''m3''] ! 0) () = Inl (PyException ''404 not found'')
   \<and> fst (try_models
         (\<lambda>m p. if m = ''m2'' then Inr ''answer'' else Inl (PyException ''404 not found''))
         () [''m1'', ''m2'', ''m3'']) = Some ''answer''
   \<and> attempted (snd (try_models
         (\<lambda>m p. if m = ''m2'' then Inr ''answer'' else Inl (PyException ''404 not found''))
         () [''m1'', ''m2'', ''m3''])) = [''m1'', ''m2'']"
  using first_success_wins
          [of 1 "[''m1'', ''m2'', ''m3'']"
              "\<lambda>m p. if m = ''m2'' then Inr ''answer'' else Inl (PyException ''404 not found'')"
              "()" "''answer''"]
  by simp

section \<open>Properties of the string operations and of the content parser\<close>

lemma prefix_contains: "prefix m s \<Longrightarrow> contains m s"
  by (cases s) auto

lemma contains_mid: "contains m (u @ m @ v)"
proof (induction u)
  case Nil
  show ?case by (simp add: prefix_contains)
next
  case (Cons x u)
  then show ?case by simp
qed

lemma str_split_nonempty: "str_split sep s \<noteq> []"
  by (induction s) (auto split: list.splits)

lemma str_split_none: "\<not> contains m s \<Longrightarrow> str_split m s = [s]"
  by (induction s) auto

lemma str_replace_none: "\<not> contains m s \<Longrightarrow> str_replace m new s = s"
  by (induction s) auto

lemma str_split_contains:
  "contains m s \<Longrightarrow> m \<noteq> [] \<Longrightarrow> \<exists>p0 p1 ps. str_split m s = p0 # p1 # ps"
proof (induction s)
  case Nil
  then show ?case by simp
next
  case (Cons c cs)
  show ?case
  proof (cases "prefix m (c # cs)")
    case True
    then show ?thesis
      using str_split_nonempty [of m "drop (length m - 1) cs"]
      by (cases "str_split m (drop (length m - 1) cs)") auto
  next
    case False
    with Cons.prems have "contains m cs" by simp
    with Cons obtain p0 p1 ps where "str_split m cs = p0 # p1 # ps" by blast
    with False show ?thesis by simp
  qed
qed

lemma not_prefix_early:
  assumes "\<not> contains m ((x # u) @ butlast m)" and "m \<noteq> []"
  shows "\<not> prefix m ((x # u) @ m @ v)"
proof
  assume p: "prefix m ((x # u) @ m @ v)"
  have eq: "(x # u) @ m @ v = ((x # u) @ butlast m) @ ([last m] @ v)"
    using assms(2) by simp
  have len: "length m \<le> length ((x # u) @ butlast m)"
    by simp
  from p have "prefix m (((x # u) @ butlast m) @ ([last m] @ v))"
    by (simp only: eq)
  moreover have "prefix ((x # u) @ butlast m) (((x # u) @ butlast m) @ ([last m] @ v))"
    by (rule prefixI) simp
  ultimately have "prefix m ((x # u) @ butlast m)"
    using len by (rule prefix_length_prefix)
  then have "contains m ((x # u) @ butlast m)"
    by simp
  with assms(1) show False by contradiction
qed

lemma str_split_first:
  "m \<noteq> [] \<Longrightarrow> \<not> contains m (u @ butlast m) \<Longrightarrow> str_split m (u @ m @ v) = u # str_split m v"
proof (induction u)
  case Nil
  then show ?case by (cases m) auto
next
  case (Cons x u)
  have np: "\<not> prefix m ((x # u) @ m @ v)"
    using Cons.prems by (intro not_prefix_early) auto
  have "\<not> contains m (u @ butlast m)"
    using Cons.prems(2) by simp
  with Cons have "str_split m (u @ m @ v) = u # str_split m v" by simp
  with np show ?case by simp
qed

lemma str_replace_first:
  "m \<noteq> [] \<Longrightarrow> \<not> contains m (u @ butlast m) \<Longrightarrow>
     str_replace m new (u @ m @ v) = u @ new @ str_replace m new v"
proof (induction u)
  case Nil
  then show ?case by (cases m) auto
next
  case (Cons x u)
  have np: "\<not> prefix m ((x # u) @ m @ v)"
    using Cons.prems by (intro not_prefix_early) auto
  have "\<not> contains m (u @ butlast m)"
    using Cons.prems(2) by simp
  with Cons have "str_replace m new (u @ m @ v) = u @ new @ str_replace m new v" by simp
  with np show ?case by simp
qed

lemma parse_in_order:
  assumes "\<not> contains TELEGRAM (a @ butlast TELEGRAM)" "\<not> contains TELEGRAM b"
    "\<not> contains PODCAST (a @ TELEGRAM @ b @ butlast PODCAST)" "\<not> contains PODCAST c"
  shows "parse_response (Some (a @ TELEGRAM @ b @ PODCAST @ c)) url
         = Some \<lparr>telegram = str_strip (a @ b) @ link_line url, podcast = cleanup (str_strip c)\<rparr>"
proof -
  let ?t = "a @ TELEGRAM @ b @ PODCAST @ c"
  have T: "TELEGRAM \<noteq> []" and P: "PODCAST \<noteq> []"
    by (simp_all add: TELEGRAM_def PODCAST_def)
  have ct: "contains TELEGRAM ?t"
    by (rule contains_mid)
  have cp: "contains PODCAST ?t"
    using contains_mid [of PODCAST "a @ TELEGRAM @ b" c] by simp
  have ne: "?t \<noteq> []"
    using T by simp
  have "str_split PODCAST ((a @ TELEGRAM @ b) @ PODCAST @ c) = (a @ TELEGRAM @ b) # str_split PODCAST c"
    using P assms(3) by (intro str_split_first) simp_all
  then have sp: "str_split PODCAST ?t = [a @ TELEGRAM @ b, c]"
    using assms(4) by (simp add: str_split_none)
  have rp: "str_replace TELEGRAM [] (a @ TELEGRAM @ b) = a @ b"
    using T assms(1,2) by (simp add: str_replace_first str_replace_none)
  show ?thesis
    unfolding parse_response_def using ct cp ne sp rp by simp
qed

lemma parse_both:
  assumes "contains TELEGRAM t" "contains PODCAST t"
  shows "\<exists>c. parse_response (Some t) url = Some c"
proof -
  have "t \<noteq> []" using assms(1) by (auto simp: TELEGRAM_def)
  moreover obtain p0 p1 ps where "str_split PODCAST t = p0 # p1 # ps"
    using str_split_contains [OF assms(2)] by (auto simp: PODCAST_def)
  ultimately show ?thesis
    using assms by (simp add: parse_response_def)
qed

lemma parse_missing:
  "\<not> contains TELEGRAM t \<or> \<not> contains PODCAST t \<Longrightarrow> parse_response (Some t) url = None"
  by (auto simp: parse_response_def)

text \<open>
  C3, as the code has it. A response that holds both markers, in whichever order, gives
  a content value; a response that lacks one of them, and no response at all, give
  \<open>None\<close>. For a response of the shape \<open>a ---TELEGRAM--- b ---PODCAST--- c\<close>, where the
  TELEGRAM marker occurs nowhere else before the PODCAST marker and the PODCAST marker
  occurs nowhere else, the short post is \<open>a\<close> and \<open>b\<close> joined and trimmed, followed by
  the link line, and the script is \<open>c\<close> trimmed, with its asterisk, bracket and
  parenthesis spans removed.
\<close>

theorem parse_response_contract:
  "(contains TELEGRAM t \<and> contains PODCAST t \<longrightarrow> (\<exists>c. parse_response (Some t) url = Some c))
   \<and> (\<not> contains TELEGRAM t \<or> \<not> contains PODCAST t \<longrightarrow> parse_response (Some t) url = None)
   \<and> parse_response None url = None
   \<and> (\<not> contains TELEGRAM (a @ butlast TELEGRAM) \<and> \<not> contains TELEGRAM b
        \<and> \<not> contains PODCAST (a @ TELEGRAM @ b @ butlast PODCAST) \<and> \<not> contains PODCAST c
      \<longrightarrow> parse_response (Some (a @ TELEGRAM @ b @ PODCAST @ c)) url
            = Some \<lparr>telegram = str_strip (a @ b) @ link_line url,
                    podcast = cleanup (str_strip c)\<rparr>)"
  using parse_both [of t url] parse_missing [of t url] parse_in_order [of a b c url]
  by (simp add: parse_response_def)

theorem parse_response_contract_witness:
  "parse_response (Some ''---TELEGRAM---Hook ---PODCAST--- Whoa (laughs) cool'') ''u''
     = Some \<lparr>telegram = ''Hook'' @ link_line ''u'', podcast = ''Whoa  cool''\<rparr>
   \<and> parse_response (Some ''no markers at all'') ''u'' = None"
  using parse_response_contract
          [of "''no markers at all''" "''u''" "[]" "''Hook ''" "'' Whoa (laughs) cool''"]
  by (simp add: TELEGRAM_def PODCAST_def str_strip_def is_space_def cleanup_def)

text \<open>
  The claim as written also asks for \<open>None\<close> when the markers are out of order. The
  code only tests that both are present: this response, PODCAST marker first, is parsed.
\<close>

theorem parse_response_out_of_order:
  "parse_response (Some ''---PODCAST---script---TELEGRAM---post'') ''u''
     = Some \<lparr>telegram = link_line ''u'', podcast = ''script---TELEGRAM---post''\<rparr>"
  by (simp add: parse_response_def TELEGRAM_def PODCAST_def str_strip_def is_space_def
        cleanup_def)

section \<open>Properties of the ledger and of the feed list\<close>

lemma save_history_ok:
  "write (keep_last_500 l) = None \<Longrightarrow>
   save_history write l = (Parsed (JObj [(''videos'', JArr (keep_last_500 l))]), [EvLedgerWrite (keep_last_500 l)])"
  by (simp add: save_history_def Let_def)

lemma record_all_newest_first:
  "distinct ids \<Longrightarrow> JStr ` set ids \<inter> set h = {} \<Longrightarrow> ids \<noteq> [] \<Longrightarrow>
   record_all newest_first write_succeeds ids (h, f)
     = (rev (map JStr ids) @ h,
        Parsed (JObj [(''videos'', JArr (keep_last_500 (rev (map JStr ids) @ h)))]))"
proof (induction ids arbitrary: h f)
  case Nil
  then show ?case by simp
next
  case (Cons i ids)
  have notin: "JStr i \<notin> set h" using Cons.prems(2) by auto
  have step: "record_delivery newest_first write_succeeds i h
      = (JStr i # h, Parsed (JObj [(''videos'', JArr (keep_last_500 (JStr i # h)))]),
         [EvLedgerWrite (keep_last_500 (JStr i # h))])"
    using notin
    by (simp add: record_delivery_def pyset_add_def newest_first_def
          save_history_ok [of write_succeeds] write_succeeds_def Let_def)
  show ?case
  proof (cases "ids = []")
    case True
    with step show ?thesis by simp
  next
    case False
    have "JStr ` set ids \<inter> set (JStr i # h) = {}"
      using Cons.prems(1,2) by auto
    with Cons.IH [of "JStr i # h"] Cons.prems(1) False step
    show ?thesis by simp
  qed
qed

lemma sample_id_inj: "inj sample_id"
proof (rule injI)
  fix m n assume "sample_id m = sample_id n"
  then have "length (sample_id m) = length (sample_id n)" by simp
  then show "m = n" by (simp add: sample_id_def)
qed

lemma distinct_sample_ids: "distinct sample_ids"
  unfolding sample_ids_def
  by (simp add: distinct_map) (meson sample_id_inj inj_on_subset subset_UNIV)

lemma upt_501: "[0..<501] = [0..<500] @ [500::nat]"
proof -
  have "[0..<Suc 500] = [0..<500] @ [500::nat]" by (rule upt_Suc_append) simp
  then show ?thesis by simp
qed

text \<open>
  C2. The claim asks that after 501 distinct ids the file holds the 500 most recently
  added. \<open>save_history\<close> keeps the last 500 of \<open>list(history)\<close>, and \<open>history\<close> is a
  set: where the set iterates its newest element first, the file holds the 500 ids added
  first and the id added last, \<open>sample_id 500\<close>, is the one dropped.
\<close>

theorem ledger_evicts_newest:
  "snd (record_all newest_first write_succeeds sample_ids ([], NoFile))
     = Parsed (JObj [(''videos'', JArr (rev (map (\<lambda>n. JStr (sample_id n)) [0..<500])))])"
proof -
  have ne: "sample_ids \<noteq> []" by (simp add: sample_ids_def)
  have len: "length (rev (map JStr sample_ids)) = 501" by (simp add: sample_ids_def)
  have "rev (map JStr sample_ids) = JStr (sample_id 500) # rev (map (\<lambda>n. JStr (sample_id n)) [0..<500])"
    unfolding sample_ids_def by (simp only: upt_501) (simp add: comp_def)
  then have "keep_last_500 (rev (map JStr sample_ids)) = rev (map (\<lambda>n. JStr (sample_id n)) [0..<500])"
    by (simp add: keep_last_500_def)
  then show ?thesis
    using record_all_newest_first [OF distinct_sample_ids _ ne, of "[]" NoFile] by simp
qed


lemma record_all_any_order:
  "place_ok place \<Longrightarrow> \<forall>l. write l = None \<Longrightarrow> distinct ids \<Longrightarrow>
   JStr ` set ids \<inter> set h = {} \<Longrightarrow> ids \<noteq> [] \<Longrightarrow>
   \<exists>H. record_all place write ids (h, f)
          = (H, Parsed (JObj [(''videos'', JArr (keep_last_500 H))]))
        \<and> set H = JStr ` set ids \<union> set h
        \<and> length H = length ids + length h"
proof (induction ids arbitrary: h f)
  case Nil
  then show ?case by simp
next
  case (Cons i ids)
  let ?h = "place (JStr i) h"
  have notin: "JStr i \<notin> set h" using Cons.prems(4) by auto
  have pl: "set ?h = insert (JStr i) (set h)" "length ?h = Suc (length h)"
    using Cons.prems(1) by (simp_all add: place_ok_def)
  have step: "record_delivery place write i h
      = (?h, Parsed (JObj [(''videos'', JArr (keep_last_500 ?h))]),
         [EvLedgerWrite (keep_last_500 ?h)])"
    using notin Cons.prems(2)
    by (simp add: record_delivery_def pyset_add_def save_history_ok Let_def)
  show ?case
  proof (cases "ids = []")
    case True
    with step pl show ?thesis by simp
  next
    case False
    have disj: "JStr ` set ids \<inter> set ?h = {}"
      using Cons.prems(3,4) pl by auto
    from Cons.IH [OF Cons.prems(1,2) _ disj False, of "Parsed (JObj [(''videos'', JArr (keep_last_500 ?h))])"]
      Cons.prems(3)
    obtain H where H: "record_all place write ids (?h, Parsed (JObj [(''videos'', JArr (keep_last_500 ?h))]))
          = (H, Parsed (JObj [(''videos'', JArr (keep_last_500 H))]))"
        "set H = JStr ` set ids \<union> set ?h" "length H = length ids + length ?h"
      by auto
    show ?thesis
      using H step pl by auto
  qed
qed

lemma ledger_keeps_500:
  assumes "place_ok place" "\<forall>l. write l = None" "distinct ids" "length ids = 501"
  shows "\<exists>H l. record_all place write ids ([], NoFile) = (H, Parsed (JObj [(''videos'', JArr l)]))
           \<and> l = drop 1 H \<and> length l = 500 \<and> distinct l \<and> set l \<subseteq> JStr ` set ids"
proof -
  have ne: "ids \<noteq> []" using assms(4) by auto
  from record_all_any_order [OF assms(1,2,3) _ ne, of "[]" NoFile]
  obtain H where H: "record_all place write ids ([], NoFile)
        = (H, Parsed (JObj [(''videos'', JArr (keep_last_500 H))]))"
      "set H = JStr ` set ids" "length H = 501"
    using assms(4) by auto
  have "card (set H) = card (set ids)"
    using H(2) by (simp add: card_image inj_on_def)
  also have "\<dots> = 501" using assms(3,4) by (simp add: distinct_card)
  finally have dH: "distinct H" using H(3) by (simp add: card_distinct)
  have k: "keep_last_500 H = drop 1 H" using H(3) by (simp add: keep_last_500_def)
  have "set (drop 1 H) \<subseteq> set H" by (rule set_drop_subset)
  then show ?thesis
    using H dH k by auto
qed



section \<open>Properties of the transcript cascade\<close>

lemma wait_done:
  "state \<noteq> ''PROCESSING'' \<Longrightarrow> wait_processing poll n state = Some (Inr state, n)"
  by (subst wait_processing.simps) simp

text \<open>
  C7. When the first method yields a text, \<open>get_transcript\<close> returns that text and the
  trace holds the first method only: methods 2 and 3 are not entered, and the result is
  the same in every world that agrees on the caption API and the cookie file, whatever
  the calls of methods 2 and 3 would do there.
\<close>

theorem tier1_text_is_returned:
  assumes "method1 w video_id = Inr text"
  shows "get_transcript w video_id = Some (Some text, [EvTier1 video_id])
         \<and> (\<forall>w'. caption_api w' = caption_api w \<and> cookies_exist w' = cookies_exist w
               \<longrightarrow> get_transcript w' video_id = Some (Some text, [EvTier1 video_id]))"
proof -
  have "\<And>w'. caption_api w' = caption_api w \<and> cookies_exist w' = cookies_exist w
          \<Longrightarrow> method1 w' video_id = Inr text"
    using assms by (simp add: method1_def)
  then show ?thesis
    using assms by (simp add: get_transcript_def)
qed

theorem tier1_text_is_returned_witness:
  "method1 demo_world ''abc'' = Inr ''hello world''
   \<and> get_transcript demo_world ''abc'' = Some (Some ''hello world'', [EvTier1 ''abc''])
   \<and> get_transcript (demo_world\<lparr>audio_exists := (\<lambda>f. False)\<rparr>) ''abc''
       = Some (Some ''hello world'', [EvTier1 ''abc''])"
proof -
  have h: "method1 demo_world ''abc'' = Inr ''hello world''"
    by (simp add: method1_def demo_world_def)
  from tier1_text_is_returned [OF h] show ?thesis
    using h by (simp add: demo_world_def)
qed

lemma get_transcript_falls_through:
  assumes "method1 w v = Inl e1"
    and "method2 w v = Inl e2 \<or> method2 w v = Inr None \<or> method2 w v = Inr (Some [])"
    and "method3 w v = Some (r, tr)"
  shows "get_transcript w v
         = Some (r, [EvTier1 v, EvTier2 v, EvSleepRandom, EvTier3 v] @ tr)"
  using assms by (auto simp: get_transcript_def Let_def)

text \<open>
  C8, as the code has it. Method 1 raises; method 2 raises or finds no caption text;
  then, when method 3 raises at the download, the upload or a poll, or finds no audio
  file, or every model attempt of the transcription raises, \<open>get_transcript\<close> returns
  \<open>None\<close>; and when the transcription returns an empty text, \<open>get_transcript\<close> returns
  that empty string. In both cases it returns: no exception leaves it.
\<close>

theorem all_tiers_fail:
  assumes "method1 w v = Inl e1"
    and "method2 w v = Inl e2 \<or> method2 w v = Inr None \<or> method2 w v = Inr (Some [])"
  shows
    "((\<exists>e. audio_download w v = Some e)
        \<or> (audio_download w v = None \<and> \<not> audio_exists w (final_audio_file v))
        \<or> (\<exists>e. audio_download w v = None \<and> audio_exists w (final_audio_file v)
              \<and> upload_file w (final_audio_file v) = Inl e)
        \<or> (\<exists>s e n. audio_download w v = None \<and> audio_exists w (final_audio_file v)
              \<and> upload_file w (final_audio_file v) = Inr s
              \<and> wait_processing (get_file w (final_audio_file v)) 0 s = Some (Inl e, n))
        \<or> (\<exists>s s' n. audio_download w v = None \<and> audio_exists w (final_audio_file v)
              \<and> upload_file w (final_audio_file v) = Inr s
              \<and> wait_processing (get_file w (final_audio_file v)) 0 s = Some (Inr s', n)
              \<and> (\<forall>m \<in> set models_to_try.
                    \<exists>e. generate w m (TranscriptionPrompt (final_audio_file v)) = Inl e))
      \<longrightarrow> (\<exists>tr. get_transcript w v = Some (None, tr)))
     \<and> ((\<exists>s s' n. audio_download w v = None \<and> audio_exists w (final_audio_file v)
              \<and> upload_file w (final_audio_file v) = Inr s
              \<and> wait_processing (get_file w (final_audio_file v)) 0 s = Some (Inr s', n)
              \<and> fst (generate_with_fallback (generate w)
                       (TranscriptionPrompt (final_audio_file v))) = Some [])
      \<longrightarrow> (\<exists>tr. get_transcript w v = Some (Some [], tr)))"
proof -
  have ft: "\<And>r tr. method3 w v = Some (r, tr) \<Longrightarrow> \<exists>tr'. get_transcript w v = Some (r, tr')"
    using get_transcript_falls_through [OF assms] by blast
  have gen_none: "fst (generate_with_fallback (generate w) p) = None"
    if "\<forall>m \<in> set models_to_try. \<exists>e. generate w m p = Inl e" for p
  proof -
    from that have "\<forall>m \<in> set models_to_try. isl (generate w m p)" by auto
    then show ?thesis
      unfolding generate_with_fallback_def by (simp add: try_models_all_fail)
  qed
  show ?thesis
  proof (intro conjI impI)
    assume "(\<exists>e. audio_download w v = Some e)
        \<or> (audio_download w v = None \<and> \<not> audio_exists w (final_audio_file v))
        \<or> (\<exists>e. audio_download w v = None \<and> audio_exists w (final_audio_file v)
              \<and> upload_file w (final_audio_file v) = Inl e)
        \<or> (\<exists>s e n. audio_download w v = None \<and> audio_exists w (final_audio_file v)
              \<and> upload_file w (final_audio_file v) = Inr s
              \<and> wait_processing (get_file w (final_audio_file v)) 0 s = Some (Inl e, n))
        \<or> (\<exists>s s' n. audio_download w v = None \<and> audio_exists w (final_audio_file v)
              \<and> upload_file w (final_audio_file v) = Inr s
              \<and> wait_processing (get_file w (final_audio_file v)) 0 s = Some (Inr s', n)
              \<and> (\<forall>m \<in> set models_to_try.
                    \<exists>e. generate w m (TranscriptionPrompt (final_audio_file v)) = Inl e))"
    then have "\<exists>tr. method3 w v = Some (None, tr)"
      using gen_none [of "TranscriptionPrompt (final_audio_file v)"]
      by (auto simp: method3_def split_beta)
    then show "\<exists>tr. get_transcript w v = Some (None, tr)"
      using ft by blast
  next
    assume "\<exists>s s' n. audio_download w v = None \<and> audio_exists w (final_audio_file v)
              \<and> upload_file w (final_audio_file v) = Inr s
              \<and> wait_processing (get_file w (final_audio_file v)) 0 s = Some (Inr s', n)
              \<and> fst (generate_with_fallback (generate w)
                       (TranscriptionPrompt (final_audio_file v))) = Some []"
    then have "\<exists>tr. method3 w v = Some (Some [], tr)"
      by (auto simp: method3_def split_beta)
    then show "\<exists>tr. get_transcript w v = Some (Some [], tr)"
      using ft by blast
  qed
qed

lemma wait_processing_unfold:
  "wait_processing poll n ''PROCESSING'' =
     (case poll n of Inl e \<Rightarrow> Some (Inl e, Suc n) | Inr s \<Rightarrow> wait_processing poll (Suc n) s)"
  by (subst wait_processing.simps) simp

lemmas demo_simps =
  demo_world_def no_captions_world_def no_audio_world_def no_voice_world_def demo_video_def
  get_transcript_def method1_def method2_def method3_def final_audio_file_def
  generate_with_fallback_def models_to_try_def analyze_video_def parse_response_def
  TELEGRAM_def PODCAST_def str_strip_def is_space_def cleanup_def
  generate_audio_def send_to_telegram_def process_video_def record_delivery_def
  save_history_def keep_last_500_def pyset_add_def newest_first_def write_succeeds_def
  wait_processing_unfold wait_done

theorem all_tiers_fail_witness:
  "method1 no_audio_world ''abc'' = Inl (PyException ''TranscriptsDisabled'')
   \<and> method2 no_audio_world ''abc'' = Inl (PyException ''download error'')
   \<and> get_transcript no_audio_world ''abc''
       = Some (None, [EvTier1 ''abc'', EvTier2 ''abc'', EvSleepRandom, EvTier3 ''abc''])"
proof -
  have h1: "method1 no_audio_world ''abc'' = Inl (PyException ''TranscriptsDisabled'')"
    by (simp add: demo_simps)
  have h2: "method2 no_audio_world ''abc'' = Inl (PyException ''download error'')
            \<or> method2 no_audio_world ''abc'' = Inr None
            \<or> method2 no_audio_world ''abc'' = Inr (Some [])"
    by (simp add: demo_simps)
  from all_tiers_fail [OF h1 h2] show ?thesis
    by (simp add: demo_simps)
qed

text \<open>
  The claim as written asks for \<open>None\<close> whenever the three methods fail by raising or by
  producing no text. Here methods 1 and 2 raise and the transcription of method 3
  produces the empty text: the value returned is the empty string.
\<close>

theorem empty_transcription_is_returned:
  "method1 no_captions_world ''abc'' = Inl (PyException ''TranscriptsDisabled'')
   \<and> method2 no_captions_world ''abc'' = Inl (PyException ''download error'')
   \<and> get_transcript no_captions_world ''abc''
       = Some (Some [], [EvTier1 ''abc'', EvTier2 ''abc'', EvSleepRandom, EvTier3 ''abc'',
                         EvSleep 2, EvSleep 2, EvSleep 2,
                         EvGenerate ''gemini-2.5-flashgemini-2.0-flash-exp''])"
  by (simp add: demo_simps numeral_2_eq_2 numeral_3_eq_3)

section \<open>Properties of the orchestrator\<close>

lemma deliveries_append: "deliveries (xs @ ys) = deliveries xs @ deliveries ys"
  by (induction xs rule: deliveries.induct) simp_all

lemma ledger_writes_append: "ledger_writes (xs @ ys) = ledger_writes xs @ ledger_writes ys"
  by (induction xs rule: ledger_writes.induct) simp_all

lemma quiet_on_model_error:
  "deliveries (on_model_error e) = []" "ledger_writes (on_model_error e) = []"
  by (simp_all add: on_model_error_def Let_def)

lemma quiet_try_models:
  "deliveries (snd (try_models gen p ms)) = [] \<and> ledger_writes (snd (try_models gen p ms)) = []"
  by (induction ms)
     (auto simp: split_beta deliveries_append ledger_writes_append quiet_on_model_error
           split: sum.splits)

lemma quiet_sleeps:
  "deliveries (replicate n (EvSleep k)) = []" "ledger_writes (replicate n (EvSleep k)) = []"
  by (induction n) simp_all

lemma quiet_method3:
  "method3 w v = Some (r, tr) \<Longrightarrow> deliveries tr = [] \<and> ledger_writes tr = []"
  using quiet_try_models [of "generate w" "TranscriptionPrompt (final_audio_file v)" models_to_try]
  by (auto simp: method3_def Let_def generate_with_fallback_def split_beta deliveries_append
        ledger_writes_append quiet_sleeps
        split: option.splits if_splits sum.splits prod.splits)

lemma quiet_get_transcript:
  "get_transcript w v = Some (r, tr) \<Longrightarrow> deliveries tr = [] \<and> ledger_writes tr = []"
  by (auto simp: get_transcript_def Let_def dest: quiet_method3
        split: sum.splits if_splits option.splits)

lemma quiet_analyze_video:
  "analyze_video gen t c ti u = (r, tr) \<Longrightarrow> deliveries tr = [] \<and> ledger_writes tr = []"
  using quiet_try_models [of gen "AnalysisPrompt ti c (take 50000 t)" models_to_try]
  by (auto simp: analyze_video_def Let_def generate_with_fallback_def split_beta)

lemma quiet_send_to_telegram:
  "deliveries (snd (send_to_telegram w msg a)) = [] \<and> ledger_writes (snd (send_to_telegram w msg a)) = []"
  by (auto simp: send_to_telegram_def Let_def split: sum.splits option.splits if_splits)

lemma quiet_generate_audio:
  "deliveries (snd (generate_audio w s)) = [] \<and> ledger_writes (snd (generate_audio w s)) = []"
  by (auto simp: generate_audio_def split: option.splits)

lemma process_videos_step:
  "process_video w v ledger = Some (ledger', tr) \<Longrightarrow>
     process_videos w (v # vs) ledger
       = map_option (\<lambda>(l, tr'). (l, tr @ tr')) (process_videos w vs ledger')"
  by (simp split: option.splits)

text \<open>
  C1, as the code has it, for one round of the loop over the new videos and for the loop
  going on to the next video. A transcript that is \<open>None\<close> or empty, and a synthesis
  that returns \<open>None\<close>, end the round with the ledger unchanged, no call of
  \<open>send_to_telegram\<close> and no write of the ledger file, and the loop goes on with the
  rest of the videos. A failed audio rendering does not end the round:
  \<open>send_to_telegram\<close> is called once, with the text and no audio file; when it succeeds
  the video id is added to the ledger and the ledger file is written, and when it fails
  the ledger is unchanged. A failed delivery ends the round with the ledger unchanged
  and no write of the ledger file, and the loop goes on with the rest of the videos.
\<close>

theorem early_exit_on_failure:
  "(get_transcript w (v_id v) = Some (transcript, tr1) \<and> py_not transcript
      \<longrightarrow> process_video w v ledger = Some (ledger, tr1)
          \<and> deliveries tr1 = [] \<and> ledger_writes tr1 = []
          \<and> process_videos w (v # vs) ledger
              = map_option (\<lambda>(l, tr'). (l, tr1 @ tr')) (process_videos w vs ledger))
   \<and> (get_transcript w (v_id v) = Some (Some t, tr1) \<and> t \<noteq> []
        \<and> analyze_video (generate w) t (v_channel v) (v_title v) (v_url v) = (None, tr2)
      \<longrightarrow> process_video w v ledger = Some (ledger, tr1 @ tr2)
          \<and> deliveries (tr1 @ tr2) = [] \<and> ledger_writes (tr1 @ tr2) = []
          \<and> process_videos w (v # vs) ledger
              = map_option (\<lambda>(l, tr'). (l, (tr1 @ tr2) @ tr')) (process_videos w vs ledger))
   \<and> (get_transcript w (v_id v) = Some (Some t, tr1) \<and> t \<noteq> []
        \<and> analyze_video (generate w) t (v_channel v) (v_title v) (v_url v) = (Some c, tr2)
        \<and> tts w (podcast c) = Some e
      \<longrightarrow> deliveries (tr1 @ tr2 @ [EvTTS (podcast c), EvDeliver (telegram c) None]
                        @ snd (send_to_telegram w (telegram c) None))
            = [EvDeliver (telegram c) None]
          \<and> (fst (send_to_telegram w (telegram c) None)
              \<longrightarrow> process_video w v ledger
                    = Some ((pyset_add (set_place w) (JStr (v_id v)) (fst ledger),
                             fst (save_history (write_history w)
                                    (pyset_add (set_place w) (JStr (v_id v)) (fst ledger)))),
                            tr1 @ tr2 @ [EvTTS (podcast c), EvDeliver (telegram c) None]
                            @ snd (send_to_telegram w (telegram c) None)
                            @ [EvLedgerWrite
                                 (keep_last_500
                                    (pyset_add (set_place w) (JStr (v_id v)) (fst ledger))),
                               EvSleep 2])
                  \<and> (place_ok (set_place w)
                       \<longrightarrow> JStr (v_id v)
                             \<in> set (pyset_add (set_place w) (JStr (v_id v)) (fst ledger))))
          \<and> (\<not> fst (send_to_telegram w (telegram c) None)
              \<longrightarrow> process_video w v ledger
                    = Some (ledger,
                            tr1 @ tr2 @ [EvTTS (podcast c), EvDeliver (telegram c) None]
                            @ snd (send_to_telegram w (telegram c) None))))
   \<and> (get_transcript w (v_id v) = Some (Some t, tr1) \<and> t \<noteq> []
        \<and> analyze_video (generate w) t (v_channel v) (v_title v) (v_url v) = (Some c, tr2)
        \<and> fst (send_to_telegram w (telegram c)
                 (if fst (generate_audio w (podcast c)) then Some ''story.mp3'' else None))
            = False
      \<longrightarrow> (\<exists>tr. process_video w v ledger = Some (ledger, tr) \<and> ledger_writes tr = []
                \<and> process_videos w (v # vs) ledger
                    = map_option (\<lambda>(l, tr'). (l, tr @ tr')) (process_videos w vs ledger)))"
proof (intro conjI impI)
  assume a: "get_transcript w (v_id v) = Some (transcript, tr1) \<and> py_not transcript"
  then show pv: "process_video w v ledger = Some (ledger, tr1)"
    by (cases transcript) (simp_all add: process_video_def)
  from a show "deliveries tr1 = []" "ledger_writes tr1 = []"
    using quiet_get_transcript by blast+
  from pv show "process_videos w (v # vs) ledger
              = map_option (\<lambda>(l, tr'). (l, tr1 @ tr')) (process_videos w vs ledger)"
    by (rule process_videos_step)
next
  assume b: "get_transcript w (v_id v) = Some (Some t, tr1) \<and> t \<noteq> []
        \<and> analyze_video (generate w) t (v_channel v) (v_title v) (v_url v) = (None, tr2)"
  then show pv: "process_video w v ledger = Some (ledger, tr1 @ tr2)"
    by (simp add: process_video_def)
  from b show "deliveries (tr1 @ tr2) = []" "ledger_writes (tr1 @ tr2) = []"
    using quiet_get_transcript [of w "v_id v" "Some t" tr1]
      quiet_analyze_video [of "generate w" t "v_channel v" "v_title v" "v_url v" None tr2]
    by (simp_all add: deliveries_append ledger_writes_append)
  from pv show "process_videos w (v # vs) ledger
              = map_option (\<lambda>(l, tr'). (l, (tr1 @ tr2) @ tr')) (process_videos w vs ledger)"
    by (rule process_videos_step)
next
  assume c: "get_transcript w (v_id v) = Some (Some t, tr1) \<and> t \<noteq> []
        \<and> analyze_video (generate w) t (v_channel v) (v_title v) (v_url v) = (Some c, tr2)
        \<and> tts w (podcast c) = Some e"
  then have q: "deliveries tr1 = []" "deliveries tr2 = []"
    using quiet_get_transcript [of w "v_id v" "Some t" tr1]
      quiet_analyze_video [of "generate w" t "v_channel v" "v_title v" "v_url v" "Some c" tr2]
    by simp_all
  show "deliveries (tr1 @ tr2 @ [EvTTS (podcast c), EvDeliver (telegram c) None]
                        @ snd (send_to_telegram w (telegram c) None))
            = [EvDeliver (telegram c) None]"
    using q quiet_send_to_telegram [of w "telegram c" None]
    by (simp add: deliveries_append)
  {
    assume "fst (send_to_telegram w (telegram c) None)"
    then show "process_video w v ledger
                    = Some ((pyset_add (set_place w) (JStr (v_id v)) (fst ledger),
                             fst (save_history (write_history w)
                                    (pyset_add (set_place w) (JStr (v_id v)) (fst ledger)))),
                            tr1 @ tr2 @ [EvTTS (podcast c), EvDeliver (telegram c) None]
                            @ snd (send_to_telegram w (telegram c) None)
                            @ [EvLedgerWrite
                                 (keep_last_500
                                    (pyset_add (set_place w) (JStr (v_id v)) (fst ledger))),
                               EvSleep 2])"
      using c
      by (simp add: process_video_def generate_audio_def Let_def split_beta
            record_delivery_def save_history_def)
  }
  {
    assume "place_ok (set_place w)"
    then show "JStr (v_id v) \<in> set (pyset_add (set_place w) (JStr (v_id v)) (fst ledger))"
      by (simp add: pyset_add_def place_ok_def)
  }
  {
    assume "\<not> fst (send_to_telegram w (telegram c) None)"
    then show "process_video w v ledger
                    = Some (ledger,
                            tr1 @ tr2 @ [EvTTS (podcast c), EvDeliver (telegram c) None]
                            @ snd (send_to_telegram w (telegram c) None))"
      using c
      by (simp add: process_video_def generate_audio_def Let_def split_beta)
  }
next
  assume d: "get_transcript w (v_id v) = Some (Some t, tr1) \<and> t \<noteq> []
        \<and> analyze_video (generate w) t (v_channel v) (v_title v) (v_url v) = (Some c, tr2)
        \<and> fst (send_to_telegram w (telegram c)
                 (if fst (generate_audio w (podcast c)) then Some ''story.mp3'' else None))
            = False"
  then have q: "ledger_writes tr1 = []" "ledger_writes tr2 = []"
    using quiet_get_transcript [of w "v_id v" "Some t" tr1]
      quiet_analyze_video [of "generate w" t "v_channel v" "v_title v" "v_url v" "Some c" tr2]
    by simp_all
  have "\<exists>tr. process_video w v ledger = Some (ledger, tr) \<and> ledger_writes tr = []"
    using d q quiet_send_to_telegram quiet_generate_audio [of w "podcast c"]
    by (auto simp: process_video_def Let_def split_beta ledger_writes_append)
  then obtain tr where tr: "process_video w v ledger = Some (ledger, tr)" "ledger_writes tr = []"
    by blast
  from process_videos_step [OF tr(1)] tr
  show "\<exists>tr. process_video w v ledger = Some (ledger, tr) \<and> ledger_writes tr = []
                \<and> process_videos w (v # vs) ledger
                    = map_option (\<lambda>(l, tr'). (l, tr @ tr')) (process_videos w vs ledger)"
    by blast
qed

theorem early_exit_on_failure_witness:
  "get_transcript no_audio_world (v_id demo_video)
     = Some (None, [EvTier1 ''abc'', EvTier2 ''abc'', EvSleepRandom, EvTier3 ''abc''])
   \<and> process_video no_audio_world demo_video ([], NoFile)
       = Some (([], NoFile), [EvTier1 ''abc'', EvTier2 ''abc'', EvSleepRandom, EvTier3 ''abc''])
   \<and> process_videos no_audio_world [demo_video] ([], NoFile)
       = Some (([], NoFile), [EvTier1 ''abc'', EvTier2 ''abc'', EvSleepRandom, EvTier3 ''abc''])"
proof -
  have h: "get_transcript no_audio_world (v_id demo_video)
             = Some (None, [EvTier1 ''abc'', EvTier2 ''abc'', EvSleepRandom, EvTier3 ''abc''])
           \<and> py_not None"
    by (simp add: demo_simps)
  from early_exit_on_failure
         [of no_audio_world demo_video None
             "[EvTier1 ''abc'', EvTier2 ''abc'', EvSleepRandom, EvTier3 ''abc'']" "([], NoFile)"
             "[]"]
    h
  show ?thesis by simp
qed

text \<open>
  The claim as written says that an item whose audio rendering fails is never delivered.
  Here the speech synthesis raises: the text is delivered without audio and the item is
  written to the ledger.
\<close>

theorem failed_audio_is_still_delivered:
  "generate_audio no_voice_world ''Whoa'' = (False, [EvTTS ''Whoa''])
   \<and> process_video no_voice_world demo_video ([], NoFile)
       = Some (([JStr ''abc''], Parsed (JObj [(''videos'', JArr [JStr ''abc''])])),
               [EvTier1 ''abc'',
                EvGenerate ''gemini-2.5-flashgemini-2.0-flash-exp'',
                EvTTS ''Whoa'',
                EvDeliver (''Hook'' @ link_line ''u'') None,
                EvPostMessage (''Hook'' @ link_line ''u'') True,
                EvLedgerWrite [JStr ''abc''],
                EvSleep 2])"
  by (simp add: demo_simps Let_def)

lemma send_result:
  assumes "post_message w msg True = Inr s1"
    and "(s1 \<noteq> 400 \<and> (s1 < 400 \<or> 600 \<le> s1))
         \<or> (s1 = 400 \<and> post_message w msg False = Inr s2 \<and> (s2 < 400 \<or> 600 \<le> s2))"
  shows "fst (send_to_telegram w msg audio_file)
         = (py_not audio_file \<or> \<not> story_exists w msg
            \<or> (open_story w msg = None \<and> \<not> isl (post_voice w msg) \<and> unlink_story w msg = None))"
  using assms
  by (auto simp: send_to_telegram_def Let_def split: option.splits sum.splits)

text \<open>
  C10, as the code has it. The post of the text succeeds, at once or at the retry
  without parse mode after a status 400. Then: when the audio file opens, the voice
  upload returns a response and the file is unlinked, \<open>send_to_telegram\<close> returns
  \<open>True\<close> whatever the status of that response, and so it does when there is no audio
  file to send; when the open, the upload or the unlink raises, it returns \<open>False\<close>. A
  round of the loop that delivers this message adds the video id to the ledger and
  writes the ledger file in the first case, and leaves the ledger as it was, with no
  write, in the last.
\<close>

theorem voice_upload_status_unchecked:
  assumes "post_message w msg True = Inr s1"
    and "(s1 \<noteq> 400 \<and> (s1 < 400 \<or> 600 \<le> s1))
         \<or> (s1 = 400 \<and> post_message w msg False = Inr s2 \<and> (s2 < 400 \<or> 600 \<le> s2))"
  shows
    "(open_story w msg = None \<and> post_voice w msg = Inr voice_status
        \<and> unlink_story w msg = None
      \<longrightarrow> fst (send_to_telegram w msg audio_file) = True)
     \<and> (py_not audio_file \<or> \<not> story_exists w msg
      \<longrightarrow> fst (send_to_telegram w msg audio_file) = True)
     \<and> (\<not> py_not audio_file \<and> story_exists w msg
          \<and> ((\<exists>e. open_story w msg = Some e) \<or> (\<exists>e. post_voice w msg = Inl e)
               \<or> (\<exists>e. unlink_story w msg = Some e))
      \<longrightarrow> fst (send_to_telegram w msg audio_file) = False)
     \<and> (open_story w msg = None \<and> post_voice w msg = Inr voice_status
          \<and> unlink_story w msg = None
          \<and> place_ok (set_place w)
          \<and> get_transcript w (v_id v) = Some (Some t, tr1) \<and> t \<noteq> []
          \<and> analyze_video (generate w) t (v_channel v) (v_title v) (v_url v) = (Some c, tr2)
          \<and> telegram c = msg
        \<longrightarrow> (\<exists>history' f' tr.
                process_video w v ledger = Some ((history', f'), tr)
                \<and> JStr (v_id v) \<in> set history'
                \<and> ledger_writes tr = [EvLedgerWrite (keep_last_500 history')]))
     \<and> (tts w (podcast c) = None \<and> story_exists w msg
          \<and> ((\<exists>e. open_story w msg = Some e) \<or> (\<exists>e. post_voice w msg = Inl e)
               \<or> (\<exists>e. unlink_story w msg = Some e))
          \<and> get_transcript w (v_id v) = Some (Some t, tr1) \<and> t \<noteq> []
          \<and> analyze_video (generate w) t (v_channel v) (v_title v) (v_url v) = (Some c, tr2)
          \<and> telegram c = msg
        \<longrightarrow> (\<exists>tr. process_video w v ledger = Some (ledger, tr) \<and> ledger_writes tr = []))"
proof -
  note sr = send_result [OF assms]
  have q: "ledger_writes tr1 = [] \<and> ledger_writes tr2 = []"
    if "get_transcript w (v_id v) = Some (Some t, tr1)"
      "analyze_video (generate w) t (v_channel v) (v_title v) (v_url v) = (Some c, tr2)"
    using that quiet_get_transcript [of w "v_id v" "Some t" tr1]
      quiet_analyze_video [of "generate w" t "v_channel v" "v_title v" "v_url v" "Some c" tr2]
    by simp
  show ?thesis
  proof (intro conjI impI)
    assume "open_story w msg = None \<and> post_voice w msg = Inr voice_status
              \<and> unlink_story w msg = None"
    then show "fst (send_to_telegram w msg audio_file) = True"
      using sr [of audio_file] by simp
  next
    assume "py_not audio_file \<or> \<not> story_exists w msg"
    then show "fst (send_to_telegram w msg audio_file) = True"
      using sr [of audio_file] by blast
  next
    assume "\<not> py_not audio_file \<and> story_exists w msg
          \<and> ((\<exists>e. open_story w msg = Some e) \<or> (\<exists>e. post_voice w msg = Inl e)
               \<or> (\<exists>e. unlink_story w msg = Some e))"
    then show "fst (send_to_telegram w msg audio_file) = False"
      using sr [of audio_file] by auto
  next
    assume h: "open_story w msg = None \<and> post_voice w msg = Inr voice_status
          \<and> unlink_story w msg = None
          \<and> place_ok (set_place w)
          \<and> get_transcript w (v_id v) = Some (Some t, tr1) \<and> t \<noteq> []
          \<and> analyze_video (generate w) t (v_channel v) (v_title v) (v_url v) = (Some c, tr2)
          \<and> telegram c = msg"
    let ?audio = "if fst (generate_audio w (podcast c)) then Some ''story.mp3'' else None"
    let ?h = "pyset_add (set_place w) (JStr (v_id v)) (fst ledger)"
    have ok: "fst (send_to_telegram w (telegram c) ?audio) = True"
      using h sr [of ?audio] by simp
    have mem: "JStr (v_id v) \<in> set ?h"
      using h by (simp add: pyset_add_def place_ok_def)
    have "\<exists>f' tr. process_video w v ledger = Some ((?h, f'), tr)
            \<and> ledger_writes tr = [EvLedgerWrite (keep_last_500 ?h)]"
      using h ok q quiet_send_to_telegram [of w "telegram c" ?audio]
        quiet_generate_audio [of w "podcast c"]
      by (simp add: process_video_def Let_def split_beta ledger_writes_append
            record_delivery_def save_history_def)
    with mem show "\<exists>history' f' tr.
                process_video w v ledger = Some ((history', f'), tr)
                \<and> JStr (v_id v) \<in> set history'
                \<and> ledger_writes tr = [EvLedgerWrite (keep_last_500 history')]"
      by blast
  next
    assume h: "tts w (podcast c) = None \<and> story_exists w msg
          \<and> ((\<exists>e. open_story w msg = Some e) \<or> (\<exists>e. post_voice w msg = Inl e)
               \<or> (\<exists>e. unlink_story w msg = Some e))
          \<and> get_transcript w (v_id v) = Some (Some t, tr1) \<and> t \<noteq> []
          \<and> analyze_video (generate w) t (v_channel v) (v_title v) (v_url v) = (Some c, tr2)
          \<and> telegram c = msg"
    then have ga: "generate_audio w (podcast c) = (True, [EvTTS (podcast c)])"
      by (simp add: generate_audio_def)
    have bad: "fst (send_to_telegram w (telegram c) (Some ''story.mp3'')) = False"
      using h sr [of "Some ''story.mp3''"] by auto
    show "\<exists>tr. process_video w v ledger = Some (ledger, tr) \<and> ledger_writes tr = []"
      using h ga bad q quiet_send_to_telegram [of w "telegram c" "Some ''story.mp3''"]
      by (simp add: process_video_def Let_def split_beta ledger_writes_append)
  qed
qed

lemma place_ok_newest_first: "place_ok newest_first"
  by (simp add: place_ok_def newest_first_def)

theorem voice_upload_status_unchecked_witness:
  "post_voice demo_world (''Hook'' @ link_line ''u'') = Inr 413
   \<and> send_to_telegram demo_world (''Hook'' @ link_line ''u'') (Some ''story.mp3'')
       = (True, [EvPostMessage (''Hook'' @ link_line ''u'') True, EvPostVoice, EvDeleteAudio])
   \<and> process_video demo_world demo_video ([], NoFile)
       = Some (([JStr ''abc''], Parsed (JObj [(''videos'', JArr [JStr ''abc''])])),
               [EvTier1 ''abc'',
                EvGenerate ''gemini-2.5-flashgemini-2.0-flash-exp'',
                EvTTS ''Whoa'',
                EvDeliver (''Hook'' @ link_line ''u'') (Some ''story.mp3''),
                EvPostMessage (''Hook'' @ link_line ''u'') True,
                EvPostVoice, EvDeleteAudio,
                EvLedgerWrite [JStr ''abc''],
                EvSleep 2])"
proof -
  let ?msg = "''Hook'' @ link_line ''u''"
  have h1: "post_message demo_world ?msg True = Inr 200"
    by (simp add: demo_world_def)
  have h2: "((200::nat) \<noteq> 400 \<and> ((200::nat) < 400 \<or> 600 \<le> (200::nat)))
            \<or> ((200::nat) = 400 \<and> post_message demo_world ?msg False = Inr 200
                \<and> ((200::nat) < 400 \<or> 600 \<le> (200::nat)))"
    by simp
  have h3: "open_story demo_world ?msg = None \<and> post_voice demo_world ?msg = Inr 413
            \<and> unlink_story demo_world ?msg = None"
    by (simp add: demo_world_def)
  from voice_upload_status_unchecked [OF h1 h2, of 413 "Some ''story.mp3''"] h3
  have "fst (send_to_telegram demo_world ?msg (Some ''story.mp3'')) = True"
    by blast
  then show ?thesis
    by (simp add: demo_simps Let_def)
qed

text \<open>
  The claim as written covers every delivery whose text post succeeds. Here the text
  post is answered with status 200 and the voice upload raises: \<open>send_to_telegram\<close>
  returns \<open>False\<close> and the item is not recorded.
\<close>

theorem raising_voice_upload_is_not_recorded:
  "post_message voice_raises_world (''Hook'' @ link_line ''u'') True = Inr 200
   \<and> send_to_telegram voice_raises_world (''Hook'' @ link_line ''u'') (Some ''story.mp3'')
       = (False, [EvPostMessage (''Hook'' @ link_line ''u'') True, EvPostVoice])
   \<and> process_video voice_raises_world demo_video ([], NoFile)
       = Some (([], NoFile),
               [EvTier1 ''abc'',
                EvGenerate ''gemini-2.5-flashgemini-2.0-flash-exp'',
                EvTTS ''Whoa'',
                EvDeliver (''Hook'' @ link_line ''u'') (Some ''story.mp3''),
                EvPostMessage (''Hook'' @ link_line ''u'') True,
                EvPostVoice])"
  by (simp add: voice_raises_world_def demo_simps Let_def)

end
